theory Spec2Isabelle
  imports Complex_Main "HOL-Library.Word" "HOL-Library.Log_Nat"
begin

section \<open>SmartFishFeeder: the command-driven actuation pipeline\<close>

text \<open>
  A shallow embedding of \<^verbatim>\<open>main/sg90_servo.c\<close> (the SG90 servo driver), of the
  command table and \<^verbatim>\<open>command_handler\<close> of \<^verbatim>\<open>main.c\<close>, and of
  \<^verbatim>\<open>tcp_server.c\<close>. Calls into the SDK and the operating system (the MCPWM
  comparator, FreeRTOS delays, sockets) are effects: they are recorded, in program order,
  in an event trace carried by an explicit world state, and the answers of the SDK and of
  the operating system are parameters of the functions that ask for them.
\<close>

subsection \<open>The C type \<^verbatim>\<open>float\<close>\<close>

text \<open>
  An IEEE 754 binary32 value is a NaN, an infinity or a finite rational. Every arithmetic
  operation computes the exact result and rounds it to the nearest binary32 value, ties to
  even, overflowing to an infinity: the default rounding of the target. The two zeros are
  one value \<open>Fin 0\<close>: no operation of this program tells them apart (the only divisor is
  the constant 180, comparisons take them as equal, and both convert to the integer 0).
  Each operation of an expression is rounded on its own (no fused multiply-add). An input
  \<open>Fin x\<close> may hold any rational \<open>x\<close>: nothing below needs it to be a binary32 value.
\<close>

datatype float32 = NaN | NInf | Fin rat | PInf

text \<open>Round to the nearest integer, ties to even.\<close>

definition rne :: "rat \<Rightarrow> int" where
  "rne q = (let f = \<lfloor>q\<rfloor>; r = q - of_int f in
     if r < 1/2 then f else if 1/2 < r then f + 1 else if even f then f else f + 1)"

text \<open>
  \<open>round_units y\<close> rounds \<open>y \<ge> 0\<close>, given in units of \<open>2\<^sup>-\<^sup>1\<^sup>4\<^sup>9\<close> (the smallest
  subnormal), to 24 significant bits: below \<open>2\<^sup>2\<^sup>4\<close> units the spacing is one unit
  (subnormals and the first binade), and it doubles with every further bit.
\<close>

definition round_units :: "rat \<Rightarrow> rat" where
  "round_units y = (let k = floorlog 2 (nat \<lfloor>y\<rfloor>) - 24 in of_int (rne (y / 2 ^ k)) * 2 ^ k)"

definition round_pos :: "rat \<Rightarrow> rat" where
  "round_pos x = round_units (x * 2 ^ 149) / 2 ^ 149"

definition round_signed :: "rat \<Rightarrow> rat" where
  "round_signed x = (if x < 0 then - round_pos (- x) else round_pos x)"

definition rnd :: "rat \<Rightarrow> float32" where
  "rnd x = (let r = round_signed x
            in if 2 ^ 128 \<le> r then PInf else if r \<le> - (2 ^ 128) then NInf else Fin r)"

fun fneg :: "float32 \<Rightarrow> float32" where
  "fneg NaN = NaN"
| "fneg NInf = PInf"
| "fneg PInf = NInf"
| "fneg (Fin x) = Fin (- x)"

fun fadd :: "float32 \<Rightarrow> float32 \<Rightarrow> float32" where
  "fadd NaN b = NaN"
| "fadd a NaN = NaN"
| "fadd (Fin x) (Fin y) = rnd (x + y)"
| "fadd PInf NInf = NaN"
| "fadd NInf PInf = NaN"
| "fadd PInf b = PInf"
| "fadd a PInf = PInf"
| "fadd NInf b = NInf"
| "fadd a NInf = NInf"

definition fsub :: "float32 \<Rightarrow> float32 \<Rightarrow> float32" where
  "fsub a b = fadd a (fneg b)"

fun fmul :: "float32 \<Rightarrow> float32 \<Rightarrow> float32" where
  "fmul NaN b = NaN"
| "fmul a NaN = NaN"
| "fmul (Fin x) (Fin y) = rnd (x * y)"
| "fmul (Fin x) PInf = (if x = 0 then NaN else if 0 < x then PInf else NInf)"
| "fmul (Fin x) NInf = (if x = 0 then NaN else if 0 < x then NInf else PInf)"
| "fmul PInf (Fin y) = (if y = 0 then NaN else if 0 < y then PInf else NInf)"
| "fmul NInf (Fin y) = (if y = 0 then NaN else if 0 < y then NInf else PInf)"
| "fmul PInf PInf = PInf"
| "fmul NInf NInf = PInf"
| "fmul PInf NInf = NInf"
| "fmul NInf PInf = NInf"

text \<open>Division by the constant \<^verbatim>\<open>180.0f\<close>, the only division of the program.\<close>

fun fdiv180 :: "float32 \<Rightarrow> float32" where
  "fdiv180 NaN = NaN"
| "fdiv180 NInf = NInf"
| "fdiv180 PInf = PInf"
| "fdiv180 (Fin x) = rnd (x / 180)"

text \<open>The comparisons \<^verbatim>\<open><\<close> and \<^verbatim>\<open><=\<close>: false whenever an operand is a NaN.\<close>

fun flt :: "float32 \<Rightarrow> float32 \<Rightarrow> bool" where
  "flt NaN b = False"
| "flt a NaN = False"
| "flt (Fin x) (Fin y) = (x < y)"
| "flt a NInf = False"
| "flt PInf b = False"
| "flt NInf b = True"
| "flt a PInf = True"

fun fle :: "float32 \<Rightarrow> float32 \<Rightarrow> bool" where
  "fle NaN b = False"
| "fle a NaN = False"
| "fle (Fin x) (Fin y) = (x \<le> y)"
| "fle NInf b = True"
| "fle a PInf = True"
| "fle a NInf = False"
| "fle PInf b = False"

text \<open>
  The cast \<^verbatim>\<open>(uint32_t)f\<close> discards the fractional part. C leaves it undefined when
  the integral part does not fit (a NaN, an infinity, a value at or below -1 or at or above
  \<open>2\<^sup>3\<^sup>2\<close>): then the result is \<open>None\<close>.
\<close>

definition f2u :: "float32 \<Rightarrow> 32 word option" where
  "f2u f = (case f of
      Fin x \<Rightarrow> if - 1 < x \<and> x < 2 ^ 32
               then Some (word_of_int (if x < 0 then \<lceil>x\<rceil> else \<lfloor>x\<rfloor>)) else None
    | _ \<Rightarrow> None)"

text \<open>The conversion of a \<^verbatim>\<open>uint8_t\<close> argument to \<^verbatim>\<open>float\<close> is exact.\<close>

definition u8_to_float :: "8 word \<Rightarrow> float32" where
  "u8_to_float a = Fin (of_nat (unat a))"

subsection \<open>The world outside the program\<close>

text \<open>
  \<^verbatim>\<open>esp_err_t\<close> with the SDK's codes that the program names; \<open>ESP_ERR n\<close> is any
  other code.
\<close>

datatype esp_err_t = ESP_OK | ESP_FAIL | ESP_ERR_INVALID_STATE | ESP_ERR int

text \<open>
  What a call does: it returns, or \<^verbatim>\<open>ESP_ERROR_CHECK\<close> aborts the process (the macro
  is the SDK's; a code other than \<^verbatim>\<open>ESP_OK\<close> is fatal, as the specification has it), or
  it runs into behaviour that C does not define.
\<close>

datatype 'a outcome = Returned 'a | Aborted | Undefined

datatype event =
    SetCompare "32 word"  \<comment> \<open>the comparator took a new compare value (microseconds)\<close>
  | TaskDelay "32 word"   \<comment> \<open>\<^verbatim>\<open>vTaskDelay(pdMS_TO_TICKS(ms))\<close>, the calling task blocks\<close>
  | Accepted int          \<comment> \<open>\<^verbatim>\<open>accept\<close> returned this descriptor\<close>
  | AcceptFailed          \<comment> \<open>\<^verbatim>\<open>accept\<close> returned a negative value\<close>
  | RecvCalled int        \<comment> \<open>one \<^verbatim>\<open>recv\<close> on this descriptor\<close>
  | Warned char           \<comment> \<open>\<^verbatim>\<open>ESP_LOGW\<close>: invalid command byte\<close>
  | Sent int string       \<comment> \<open>\<^verbatim>\<open>send\<close> of these bytes on this descriptor\<close>
  | Closed int            \<comment> \<open>\<^verbatim>\<open>close\<close> of this descriptor\<close>
  | SocketOpened int      \<comment> \<open>\<^verbatim>\<open>socket\<close> returned this descriptor\<close>
  | Bound int "16 word"   \<comment> \<open>\<^verbatim>\<open>bind\<close> of the descriptor to the port succeeded\<close>
  | Listening int         \<comment> \<open>\<^verbatim>\<open>listen\<close> on the descriptor succeeded\<close>
  | TaskCreated           \<comment> \<open>\<^verbatim>\<open>xTaskCreate(tcp_server_task, ...)\<close> succeeded\<close>

record world =
  compare_value :: "32 word"
  trace :: "event list"

definition emit :: "event \<Rightarrow> world \<Rightarrow> world" where
  "emit e w = w\<lparr>trace := trace w @ [e]\<rparr>"

definition vTaskDelay_ms :: "32 word \<Rightarrow> world \<Rightarrow> world" where
  "vTaskDelay_ms ms w = emit (TaskDelay ms) w"

text \<open>An SDK handle; \<open>None\<close> is \<^verbatim>\<open>NULL\<close>.\<close>

type_synonym handle = "nat option"

text \<open>
  Modelled from the spec: the Pulse Generator (the SDK's MCPWM comparator, whose code is
  not part of the repository) keeps the last value passed to it as its duty. Whether the
  SDK accepts a value for a handle is the parameter \<open>sdk\<close>; a refused value leaves the
  duty as it was.
\<close>

definition mcpwm_comparator_set_compare_value ::
  "(handle \<Rightarrow> 32 word \<Rightarrow> esp_err_t) \<Rightarrow> handle \<Rightarrow> 32 word \<Rightarrow> world \<Rightarrow> esp_err_t \<times> world" where
  "mcpwm_comparator_set_compare_value sdk cmpr v w =
     (if sdk cmpr v = ESP_OK then (ESP_OK, emit (SetCompare v) (w\<lparr>compare_value := v\<rparr>))
      else (sdk cmpr v, w))"

subsection \<open>\<^verbatim>\<open>sg90_servo.c\<close>\<close>

record sg90_config_t =
  signal_pin :: int
  timer :: handle
  oper :: handle
  comparator :: handle
  generator :: handle
  min_pulse_width_us :: float32
  max_pulse_width_us :: float32

text \<open>The first statement of \<^verbatim>\<open>sg90_set_angle\<close>: the angle is limited to the range.\<close>

definition clamp_angle :: "float32 \<Rightarrow> float32" where
  "clamp_angle angle =
     (if flt angle (Fin 0) then Fin 0
      else if flt (Fin 180) angle then Fin 180
      else angle)"

text \<open>Its second statement: \<^verbatim>\<open>min + (angle / 180.0f) * (max - min)\<close>.\<close>

definition pulse_width :: "sg90_config_t \<Rightarrow> float32 \<Rightarrow> float32" where
  "pulse_width config angle =
     fadd (min_pulse_width_us config)
          (fmul (fdiv180 angle) (fsub (max_pulse_width_us config) (min_pulse_width_us config)))"

definition sg90_set_angle ::
  "(handle \<Rightarrow> 32 word \<Rightarrow> esp_err_t) \<Rightarrow> sg90_config_t \<Rightarrow> float32 \<Rightarrow> world
     \<Rightarrow> esp_err_t outcome \<times> world" where
  "sg90_set_angle sdk config angle w =
     (case f2u (pulse_width config (clamp_angle angle)) of
        None \<Rightarrow> (Undefined, w)
      | Some v \<Rightarrow>
          (case mcpwm_comparator_set_compare_value sdk (comparator config) v w of
             (err, w') \<Rightarrow> if err \<noteq> ESP_OK then (Aborted, w') else (Returned ESP_OK, w')))"

definition sg90_set_angle_with_reset ::
  "(handle \<Rightarrow> 32 word \<Rightarrow> esp_err_t) \<Rightarrow> sg90_config_t \<Rightarrow> float32 \<Rightarrow> 32 word \<Rightarrow> world
     \<Rightarrow> esp_err_t outcome \<times> world" where
  "sg90_set_angle_with_reset sdk config angle reset_delay_ms w =
     (case sg90_set_angle sdk config angle w of
        (Returned ret, w1) \<Rightarrow>
          if ret \<noteq> ESP_OK then (Returned ret, w1)
          else sg90_set_angle sdk config (Fin 0) (vTaskDelay_ms reset_delay_ms w1)
      | (Aborted, w1) \<Rightarrow> (Aborted, w1)
      | (Undefined, w1) \<Rightarrow> (Undefined, w1))"

subsection \<open>\<^verbatim>\<open>tcp_server.c\<close>: sending a response\<close>

text \<open>
  \<^verbatim>\<open>tcp_server_send_response\<close> refuses a negative descriptor and otherwise hands the
  bytes of the string to \<^verbatim>\<open>send\<close>. Its result, the count that \<^verbatim>\<open>send\<close> reports,
  is dropped by its only caller and is not modelled.
\<close>

definition tcp_server_send_response :: "int \<Rightarrow> string \<Rightarrow> world \<Rightarrow> world" where
  "tcp_server_send_response client_fd response w =
     (if client_fd < 0 then w else emit (Sent client_fd response) w)"

subsection \<open>\<^verbatim>\<open>main.c\<close>: the command table and the command handler\<close>

definition command_angle_map :: "8 word list" where
  "command_angle_map = [0, 18, 36, 54, 72, 90, 108, 126, 144, 180]"

text \<open>\<^verbatim>\<open>%d\<close> of a value that is not negative.\<close>

fun decimal :: "nat \<Rightarrow> string" where
  "decimal n =
     (if n < 10 then [''0123456789'' ! n]
      else decimal (n div 10) @ [''0123456789'' ! (n mod 10)])"

declare decimal.simps [simp del]

text \<open>\<^verbatim>\<open>snprintf\<close> into \<^verbatim>\<open>char response[64]\<close>: at most 63 bytes are kept.\<close>

definition snprintf_64 :: "string \<Rightarrow> string" where
  "snprintf_64 s = take 63 s"

text \<open>The degree sign of the format string, two bytes in the UTF-8 source file.\<close>

definition degree_sign :: string where
  "degree_sign = [char_of (0xC2 :: nat), char_of (0xB0 :: nat)]"

text \<open>
  A byte is its unsigned value; whether \<^verbatim>\<open>char\<close> is signed makes no difference to
  the range test (a byte above 127 fails it on one side or on the other).
\<close>

definition angle_for_command :: "char \<Rightarrow> 8 word" where
  "angle_for_command command = command_angle_map ! ((of_char command :: nat) - 48)"

type_synonym command_callback_t = "char \<Rightarrow> int \<Rightarrow> world \<Rightarrow> unit outcome \<times> world"

text \<open>
  \<open>g_servo_config\<close> is the global pointer, \<open>None\<close> while it is \<^verbatim>\<open>NULL\<close>. The handler
  drops the result of \<^verbatim>\<open>sg90_set_angle_with_reset\<close>.
\<close>

definition command_handler ::
  "(handle \<Rightarrow> 32 word \<Rightarrow> esp_err_t) \<Rightarrow> sg90_config_t option \<Rightarrow> command_callback_t" where
  "command_handler sdk g_servo_config command client_fd w =
     (if (of_char command :: nat) < 48 \<or> 57 < (of_char command :: nat) then (Returned (), w)
      else
        let angle = angle_for_command command in
        case g_servo_config of
          Some config \<Rightarrow>
            (case sg90_set_angle_with_reset sdk config (u8_to_float angle) 1000 w of
               (Returned ret, w1) \<Rightarrow>
                 (Returned (),
                  tcp_server_send_response client_fd
                    (snprintf_64 (''OK: Command '' @ [command] @ '' -> Angle ''
                       @ decimal (unat angle) @ degree_sign @ '' (auto reset in 1s)'' @ [CHR 0x0A]))
                    w1)
             | (Aborted, w1) \<Rightarrow> (Aborted, w1)
             | (Undefined, w1) \<Rightarrow> (Undefined, w1))
        | None \<Rightarrow>
            (Returned (),
             tcp_server_send_response client_fd
               (snprintf_64 (''ERROR: Servo not initialized'' @ [CHR 0x0A])) w))"

text \<open>
  The configuration that \<^verbatim>\<open>servo_control_task\<close> declares (signal on GPIO 17, pulse
  widths from 500 to 2500 microseconds), and a world in which nothing has happened yet.
\<close>

definition servo_config :: sg90_config_t where
  "servo_config = \<lparr>signal_pin = 17, timer = None, oper = None, comparator = None,
     generator = None, min_pulse_width_us = Fin 500, max_pulse_width_us = Fin 2500\<rparr>"

definition world0 :: world where
  "world0 = \<lparr>compare_value = 0, trace = []\<rparr>"

subsection \<open>\<^verbatim>\<open>tcp_server.c\<close>: the listener\<close>

record tcp_server_state_t =
  server_fd :: int
  port :: "16 word"
  running :: bool
  callback :: "command_callback_t option"

definition server_state :: tcp_server_state_t where
  "server_state = \<lparr>server_fd = - 1, port = 0, running = False, callback = None\<rparr>"

text \<open>
  The loop over the received bytes: a digit goes to the registered callback, a line end is
  skipped, any other byte is logged as a warning.
\<close>

fun process_buffer ::
  "command_callback_t option \<Rightarrow> int \<Rightarrow> char list \<Rightarrow> world \<Rightarrow> unit outcome \<times> world" where
  "process_buffer cb client_fd [] w = (Returned (), w)"
| "process_buffer cb client_fd (cmd # rest) w =
     (if (48::nat) \<le> of_char cmd \<and> (of_char cmd :: nat) \<le> 57 then
        (case cb of
           Some f \<Rightarrow>
             (case f cmd client_fd w of
                (Returned u, w1) \<Rightarrow> process_buffer cb client_fd rest w1
              | (Aborted, w1) \<Rightarrow> (Aborted, w1)
              | (Undefined, w1) \<Rightarrow> (Undefined, w1))
         | None \<Rightarrow> process_buffer cb client_fd rest w)
      else if cmd = CHR 0x0A \<or> cmd = CHR 0x0D then process_buffer cb client_fd rest w
      else process_buffer cb client_fd rest (emit (Warned cmd) w))"





text \<open>
  What the socket calls of \<^verbatim>\<open>tcp_server_init\<close> return: a negative value is a failure.
\<close>

record socket_answers =
  socket_ret :: int
  setsockopt_ret :: int
  bind_ret :: int
  listen_ret :: int

definition tcp_server_init ::
  "socket_answers \<Rightarrow> 16 word \<Rightarrow> tcp_server_state_t \<Rightarrow> world
     \<Rightarrow> esp_err_t \<times> tcp_server_state_t \<times> world" where
  "tcp_server_init os port0 st w =
     (let port1 = (if port0 = 0 then 8080 else port0);
          st1 = st\<lparr>port := port1, server_fd := - 1\<rparr>;
          st2 = st1\<lparr>server_fd := socket_ret os\<rparr>
      in if server_fd st2 < 0 then (ESP_FAIL, st2, w)
         else
           let w1 = emit (SocketOpened (server_fd st2)) w in
           if bind_ret os < 0 then
             (ESP_FAIL, st2\<lparr>server_fd := - 1\<rparr>, emit (Closed (server_fd st2)) w1)
           else
             let w2 = emit (Bound (server_fd st2) port1) w1 in
             if listen_ret os < 0 then
               (ESP_FAIL, st2\<lparr>server_fd := - 1\<rparr>, emit (Closed (server_fd st2)) w2)
             else (ESP_OK, st2, emit (Listening (server_fd st2)) w2))"

text \<open>\<open>task_created\<close>: whether \<^verbatim>\<open>xTaskCreate\<close> answers \<^verbatim>\<open>pdPASS\<close>.\<close>

definition tcp_server_start ::
  "bool \<Rightarrow> tcp_server_state_t \<Rightarrow> world \<Rightarrow> esp_err_t \<times> world" where
  "tcp_server_start task_created st w =
     (if server_fd st < 0 then (ESP_ERR_INVALID_STATE, w)
      else if running st then (ESP_OK, w)
      else if \<not> task_created then (ESP_FAIL, w)
      else (ESP_OK, emit TaskCreated w))"

subsection \<open>What the specification expects of the listener\<close>

text \<open>
  The effects that the specification gives to one command: the actuator moves to the angle
  of the digit, the task blocks for 1000 ms, the actuator returns to 0 degrees, and one
  response line is written; without a servo configuration, only the error line is written.
\<close>

definition duty :: "sg90_config_t \<Rightarrow> float32 \<Rightarrow> 32 word" where
  "duty config angle = the (f2u (pulse_width config (clamp_angle angle)))"

definition ok_response :: "char \<Rightarrow> string" where
  "ok_response c = ''OK: Command '' @ [c] @ '' -> Angle '' @ decimal (unat (angle_for_command c))
     @ degree_sign @ '' (auto reset in 1s)'' @ [CHR 0x0A]"

definition error_response :: string where
  "error_response = ''ERROR: Servo not initialized'' @ [CHR 0x0A]"



text \<open>
  One connection at a time, as an automaton that reads the event trace of the listener
  task: the task is either between connections or serving one descriptor, on which it has
  read or not. Between connections it may only poll \<^verbatim>\<open>accept\<close> and pause for 100 ms or
  10 ms. On a connection it reads once, first; commands take effect, responses go to this
  descriptor, and warnings are logged only after the read; \<^verbatim>\<open>accept\<close> is not called again
  before the descriptor is closed. \<open>None\<close>: the trace breaks this order.
\<close>

datatype listener_phase = Between | Serving int bool

fun phase_step :: "listener_phase \<Rightarrow> event \<Rightarrow> listener_phase option" where
  "phase_step Between (Accepted fd) = Some (Serving fd False)"
| "phase_step Between AcceptFailed = Some Between"
| "phase_step Between (TaskDelay ms) = (if ms = 100 \<or> ms = 10 then Some Between else None)"
| "phase_step Between e = None"
| "phase_step (Serving fd False) (RecvCalled fd') =
     (if fd' = fd then Some (Serving fd True) else None)"
| "phase_step (Serving fd False) e = None"
| "phase_step (Serving fd True) (SetCompare v) = Some (Serving fd True)"
| "phase_step (Serving fd True) (TaskDelay ms) = Some (Serving fd True)"
| "phase_step (Serving fd True) (Warned c) = Some (Serving fd True)"
| "phase_step (Serving fd True) (Sent fd' s) = (if fd' = fd then Some (Serving fd True) else None)"
| "phase_step (Serving fd True) (Closed fd') = (if fd' = fd then Some Between else None)"
| "phase_step (Serving fd True) e = None"

fun phase_run :: "listener_phase \<Rightarrow> event list \<Rightarrow> listener_phase option" where
  "phase_run p [] = Some p"
| "phase_run p (e # es) = (case phase_step p e of None \<Rightarrow> None | Some q \<Rightarrow> phase_run q es)"


section \<open>Rounding to binary32 is monotone\<close>

lemma rne_of_int: "rne (of_int n) = n"
  by (simp add: rne_def)

lemma rne_lower: "\<lfloor>q\<rfloor> \<le> rne q"
  by (simp add: rne_def Let_def)

lemma rne_upper: "rne q \<le> \<lfloor>q\<rfloor> + 1"
  by (simp add: rne_def Let_def)

lemma rne_mono: "q \<le> q' \<Longrightarrow> rne q \<le> rne q'"
proof (cases "\<lfloor>q\<rfloor> = \<lfloor>q'\<rfloor>")
  case True
  assume "q \<le> q'"
  with True show ?thesis by (auto simp: rne_def Let_def)
next
  case False
  assume le: "q \<le> q'"
  then have "\<lfloor>q\<rfloor> \<le> \<lfloor>q'\<rfloor>" by (rule floor_mono)
  with False have "\<lfloor>q\<rfloor> + 1 \<le> \<lfloor>q'\<rfloor>" by simp
  with rne_upper [of q] rne_lower [of q'] show ?thesis by linarith
qed

lemma rne_le_int: "q \<le> of_int n \<Longrightarrow> rne q \<le> n"
  using rne_mono [of q "of_int n"] by (simp add: rne_of_int)

lemma rne_ge_int: "of_int n \<le> q \<Longrightarrow> n \<le> rne q"
  using rne_mono [of "of_int n" q] by (simp add: rne_of_int)

lemma nat_floor_less_floorlog: "nat \<lfloor>y::rat\<rfloor> < 2 ^ floorlog 2 (nat \<lfloor>y\<rfloor>)"
proof (cases "nat \<lfloor>y\<rfloor> = 0")
  case True
  then show ?thesis by simp
next
  case False
  then show ?thesis using floorlog_bounds [of "nat \<lfloor>y\<rfloor>" 2] by simp
qed

lemma less_pow_floorlog:
  assumes "0 \<le> (y::rat)"
  shows "y < 2 ^ floorlog 2 (nat \<lfloor>y\<rfloor>)"
proof -
  define n where "n = nat \<lfloor>y\<rfloor>"
  have "n < 2 ^ floorlog 2 n"
    unfolding n_def by (rule nat_floor_less_floorlog)
  then have "n + 1 \<le> 2 ^ floorlog 2 n" by simp
  then have "(of_nat (n + 1) :: rat) \<le> of_nat (2 ^ floorlog 2 n)"
    by (rule of_nat_mono)
  moreover have "y < of_nat (n + 1)"
    unfolding n_def using assms by simp linarith
  ultimately show ?thesis unfolding n_def by simp
qed

lemma round_units_mono:
  assumes "0 \<le> y" "y \<le> y'"
  shows "round_units y \<le> round_units y'"
proof -
  define L where "L = floorlog 2 (nat \<lfloor>y\<rfloor>)"
  define L' where "L' = floorlog 2 (nat \<lfloor>y'\<rfloor>)"
  define k where "k = L - 24"
  define k' where "k' = L' - 24"
  have y'0: "0 \<le> y'" using assms by simp
  have "nat \<lfloor>y\<rfloor> \<le> nat \<lfloor>y'\<rfloor>"
    using assms by (simp add: floor_mono nat_mono)
  then have LL: "L \<le> L'" unfolding L_def L'_def by (rule floorlog_mono)
  then have kk: "k \<le> k'" unfolding k_def k'_def by simp
  have ru: "round_units y = of_int (rne (y / 2 ^ k)) * 2 ^ k"
    by (simp add: round_units_def k_def L_def Let_def)
  have ru': "round_units y' = of_int (rne (y' / 2 ^ k')) * 2 ^ k'"
    by (simp add: round_units_def k'_def L'_def Let_def)
  show ?thesis
  proof (cases "k = k'")
    case True
    have "y / 2 ^ k \<le> y' / 2 ^ k" using assms by (simp add: divide_right_mono)
    then have "rne (y / 2 ^ k) \<le> rne (y' / 2 ^ k)" by (rule rne_mono)
    then show ?thesis unfolding ru ru' True [symmetric] by simp
  next
    case False
    with kk have lt: "k < k'" by simp
    then have L'eq: "L' = k' + 24" unfolding k'_def by simp
    have "y < 2 ^ L" unfolding L_def using assms(1) by (rule less_pow_floorlog)
    also have "(2::rat) ^ L \<le> 2 ^ (k + 24)"
      unfolding k_def by (rule power_increasing) simp_all
    finally have "y / 2 ^ k \<le> of_int (2 ^ 24)"
      by (simp add: power_add divide_le_eq)
    then have "rne (y / 2 ^ k) \<le> 2 ^ 24" by (rule rne_le_int)
    then have "(of_int (rne (y / 2 ^ k)) :: rat) \<le> of_int (2 ^ 24)"
      by (simp only: of_int_le_iff)
    then have up: "round_units y \<le> 2 ^ (k + 24)"
      unfolding ru by (simp add: power_add mult.commute)
    have "0 < nat \<lfloor>y'\<rfloor>"
      using L'eq unfolding L'_def by (cases "nat \<lfloor>y'\<rfloor> = 0") (simp_all add: floorlog_def)
    then have "2 ^ (L' - 1) \<le> nat \<lfloor>y'\<rfloor>"
      unfolding L'_def using floorlog_bounds [of "nat \<lfloor>y'\<rfloor>" 2] by simp
    then have "(of_nat (2 ^ (L' - 1)) :: rat) \<le> of_nat (nat \<lfloor>y'\<rfloor>)"
      by (rule of_nat_mono)
    also have "\<dots> \<le> y'" using y'0 by simp
    finally have "(2::rat) ^ (k' + 23) \<le> y'" by (simp add: L'eq add.commute)
    then have "of_int (2 ^ 23) \<le> y' / 2 ^ k'"
      by (simp add: power_add le_divide_eq mult.commute)
    then have "2 ^ 23 \<le> rne (y' / 2 ^ k')" by (rule rne_ge_int)
    then have "(of_int (2 ^ 23) :: rat) \<le> of_int (rne (y' / 2 ^ k'))"
      by (simp only: of_int_le_iff)
    then have lo: "2 ^ (k' + 23) \<le> round_units y'"
      unfolding ru' by (simp add: power_add mult.commute)
    have "(2::rat) ^ (k + 24) \<le> 2 ^ (k' + 23)"
      using lt by (intro power_increasing) simp_all
    with up lo show ?thesis by linarith
  qed
qed

lemma round_units_nonneg: "0 \<le> y \<Longrightarrow> 0 \<le> round_units y"
proof -
  assume "0 \<le> y"
  then have "of_int 0 \<le> y / 2 ^ (floorlog 2 (nat \<lfloor>y\<rfloor>) - 24)" by simp
  then have "0 \<le> rne (y / 2 ^ (floorlog 2 (nat \<lfloor>y\<rfloor>) - 24))" by (rule rne_ge_int)
  then show ?thesis by (simp add: round_units_def Let_def)
qed

lemma round_pos_mono: "0 \<le> x \<Longrightarrow> x \<le> y \<Longrightarrow> round_pos x \<le> round_pos y"
  unfolding round_pos_def
  by (intro divide_right_mono round_units_mono) simp_all

lemma round_pos_nonneg: "0 \<le> x \<Longrightarrow> 0 \<le> round_pos x"
  unfolding round_pos_def by (simp add: round_units_nonneg)

lemma round_signed_mono: "x \<le> y \<Longrightarrow> round_signed x \<le> round_signed y"
proof -
  assume le: "x \<le> y"
  consider "y < 0" | "x < 0" "0 \<le> y" | "0 \<le> x" by linarith
  then show ?thesis
  proof cases
    case 1
    with le have "round_pos (- y) \<le> round_pos (- x)" by (intro round_pos_mono) simp_all
    with 1 le show ?thesis by (simp add: round_signed_def)
  next
    case 2
    have "0 \<le> round_pos (- x)" using 2 by (intro round_pos_nonneg) simp
    moreover have "0 \<le> round_pos y" using 2 by (intro round_pos_nonneg)
    ultimately show ?thesis using 2 by (simp add: round_signed_def)
  next
    case 3
    with le have "round_pos x \<le> round_pos y" by (intro round_pos_mono)
    with 3 le show ?thesis by (simp add: round_signed_def)
  qed
qed

lemma rnd_round_signed:
  "rnd x = (if 2 ^ 128 \<le> round_signed x then PInf
            else if round_signed x \<le> - (2 ^ 128) then NInf else Fin (round_signed x))"
  by (simp add: rnd_def Let_def)

lemma rnd_not_NaN: "rnd x \<noteq> NaN"
  by (simp add: rnd_round_signed)

lemma rnd_mono: "x \<le> y \<Longrightarrow> fle (rnd x) (rnd y)"
  using round_signed_mono [of x y] by (auto simp: rnd_round_signed)

section \<open>Values that binary32 represents are not changed by rounding\<close>

lemma round_units_exact:
  assumes "0 \<le> n" "n < 2 ^ 24"
  shows "round_units (of_int n * 2 ^ j) = of_int n * 2 ^ j"
proof (cases "n = 0")
  case True
  then show ?thesis by (simp add: round_units_def rne_def)
next
  case False
  define a where "a = nat n"
  have a: "0 < a" "a < 2 ^ 24" "n = int a"
    using assms False by (simp_all add: a_def nat_less_iff)
  define k where "k = floorlog 2 (a * 2 ^ j) - 24"
  have "floorlog 2 a \<le> 24" using a by (simp add: floorlog_le_iff)
  then have kj: "k \<le> j" using a by (simp add: k_def)
  have fl: "nat \<lfloor>(of_int n :: rat) * 2 ^ j\<rfloor> = a * 2 ^ j"
  proof -
    have "(of_int n :: rat) * 2 ^ j = of_int (n * 2 ^ j)" by simp
    then have "\<lfloor>(of_int n :: rat) * 2 ^ j\<rfloor> = n * 2 ^ j" by (simp only: floor_of_int)
    then show ?thesis using a by (simp add: nat_mult_distrib nat_power_eq)
  qed
  from kj obtain d where d: "j = k + d" by (auto simp: le_iff_add)
  have "(of_int n :: rat) * 2 ^ j / 2 ^ k = of_int (n * 2 ^ d)"
    by (simp add: d power_add)
  then have "rne ((of_int n :: rat) * 2 ^ j / 2 ^ k) = n * 2 ^ d"
    by (simp only: rne_of_int)
  then have "of_int (rne ((of_int n :: rat) * 2 ^ j / 2 ^ k)) * (2::rat) ^ k = of_int n * 2 ^ j"
    by (simp add: d power_add)
  then show ?thesis
    by (simp add: round_units_def Let_def fl k_def)
qed

lemma round_pos_exact:
  assumes "0 \<le> n" "n < 2 ^ 24"
  shows "round_pos (of_int n * 2 ^ j / 2 ^ 149) = of_int n * 2 ^ j / 2 ^ 149"
  using round_units_exact [OF assms, of j] by (simp add: round_pos_def)

lemma rnd_exact:
  assumes "\<bar>n\<bar> < 2 ^ 24" "\<bar>of_int n * 2 ^ j / 2 ^ 149\<bar> < (2::rat) ^ 128"
  shows "rnd (of_int n * 2 ^ j / 2 ^ 149) = Fin (of_int n * 2 ^ j / 2 ^ 149)"
proof -
  let ?x = "(of_int n :: rat) * 2 ^ j / 2 ^ 149"
  have "round_signed ?x = ?x"
  proof (cases "n < 0")
    case True
    then have neg: "?x < 0" by (simp add: divide_neg_pos mult_neg_pos)
    have "round_pos (of_int (- n) * 2 ^ j / 2 ^ 149) = of_int (- n) * 2 ^ j / 2 ^ 149"
      using True assms(1) by (intro round_pos_exact) simp_all
    then have "round_pos (- ?x) = - ?x" by simp
    with neg show ?thesis by (simp add: round_signed_def)
  next
    case False
    then have "\<not> ?x < 0" by (simp add: not_less)
    moreover have "round_pos ?x = ?x"
      using False assms(1) by (intro round_pos_exact) simp_all
    ultimately show ?thesis by (simp add: round_signed_def)
  qed
  with assms(2) show ?thesis by (simp add: rnd_def Let_def abs_less_iff not_le)
qed

lemma rnd_int: "\<bar>n\<bar> < 2 ^ 24 \<Longrightarrow> rnd (of_int n) = Fin (of_int n)"
proof -
  assume a: "\<bar>n\<bar> < 2 ^ 24"
  then have "\<bar>of_int n :: rat\<bar> < of_int (2 ^ 24)"
    by (simp only: of_int_abs [symmetric] of_int_less_iff)
  then have "\<bar>of_int n :: rat\<bar> < 2 ^ 128" by simp
  with a rnd_exact [of n 149] show ?thesis by simp
qed

lemma rnd_0: "rnd 0 = Fin 0"
  using rnd_int [of 0] by simp

lemma rnd_1: "rnd 1 = Fin 1"
  using rnd_int [of 1] by simp

lemma rnd_half: "rnd (1/2) = Fin (1/2)"
  using rnd_exact [of 1 148] by simp

lemma rnd_500: "rnd 500 = Fin 500"
  using rnd_int [of 500] by simp

section \<open>The pulse width grows with the angle\<close>

lemma fle_rnd_PInf: "fle (rnd x) PInf"
  by (simp add: rnd_round_signed)

lemma fle_NInf_rnd: "fle NInf (rnd x)"
  by (simp add: rnd_round_signed)

lemma fle_Fin_between:
  "fle (Fin l) f \<Longrightarrow> fle f (Fin u) \<Longrightarrow> \<exists>q. f = Fin q \<and> l \<le> q \<and> q \<le> u"
  by (cases f) simp_all

lemma clamp_angle_range:
  "a \<noteq> NaN \<Longrightarrow> \<exists>c. clamp_angle a = Fin c \<and> 0 \<le> c \<and> c \<le> 180"
  by (cases a) (simp_all add: clamp_angle_def)

lemma clamp_angle_mono: "fle a b \<Longrightarrow> fle (clamp_angle a) (clamp_angle b)"
  by (cases a; cases b) (auto simp: clamp_angle_def)

lemma fdiv180_unit:
  assumes "0 \<le> c" "c \<le> 180"
  shows "\<exists>q. fdiv180 (Fin c) = Fin q \<and> 0 \<le> q \<and> q \<le> 1"
proof -
  have "fle (rnd 0) (rnd (c / 180))" using assms by (intro rnd_mono) simp
  moreover have "fle (rnd (c / 180)) (rnd 1)" using assms by (intro rnd_mono) simp
  ultimately show ?thesis using fle_Fin_between [of 0 "rnd (c / 180)" 1]
    by (simp add: rnd_0 rnd_1)
qed

lemma fdiv180_mono: "c \<le> c' \<Longrightarrow> fle (fdiv180 (Fin c)) (fdiv180 (Fin c'))"
  by (simp add: rnd_mono divide_right_mono)

lemma fsub_Fin: "fsub (Fin x) (Fin y) = rnd (x - y)"
  by (simp add: fsub_def)

lemma fsub_nonneg:
  assumes "lo \<le> hi" "fsub (Fin hi) (Fin lo) \<noteq> PInf"
  shows "\<exists>d. fsub (Fin hi) (Fin lo) = Fin d \<and> 0 \<le> d"
proof -
  have "fle (rnd 0) (rnd (hi - lo))" using assms(1) by (intro rnd_mono) simp
  then show ?thesis using assms(2) by (cases "rnd (hi - lo)") (simp_all add: fsub_Fin rnd_0)
qed

lemma fmul_mono: "0 \<le> d \<Longrightarrow> q \<le> q' \<Longrightarrow> fle (fmul (Fin q) (Fin d)) (fmul (Fin q') (Fin d))"
  by (simp add: rnd_mono mult_right_mono)

lemma fadd_mono: "fle p p' \<Longrightarrow> fle (fadd (Fin m) p) (fadd (Fin m) p')"
  by (cases p; cases p') (simp_all add: rnd_mono fle_rnd_PInf fle_NInf_rnd)

lemma pulse_width_mono:
  assumes lo: "min_pulse_width_us config = Fin lo"
    and hi: "max_pulse_width_us config = Fin hi"
    and le: "lo \<le> hi"
    and fin: "fsub (Fin hi) (Fin lo) \<noteq> PInf"
    and ab: "fle a b"
  shows "fle (pulse_width config (clamp_angle a)) (pulse_width config (clamp_angle b))"
proof -
  from ab have "a \<noteq> NaN" "b \<noteq> NaN" by (cases a; cases b; simp)+
  then obtain c c' where c: "clamp_angle a = Fin c" "0 \<le> c" "c \<le> 180"
    and c': "clamp_angle b = Fin c'" "0 \<le> c'" "c' \<le> 180"
    using clamp_angle_range by blast
  from clamp_angle_mono [OF ab] have cc: "c \<le> c'" by (simp add: c c')
  obtain q where q: "fdiv180 (Fin c) = Fin q" "0 \<le> q"
    using fdiv180_unit [OF c(2,3)] by blast
  obtain q' where q': "fdiv180 (Fin c') = Fin q'" "0 \<le> q'"
    using fdiv180_unit [OF c'(2,3)] by blast
  from fdiv180_mono [OF cc] have qq: "q \<le> q'" by (simp only: q q' fle.simps)
  obtain d where d: "fsub (Fin hi) (Fin lo) = Fin d" "0 \<le> d"
    using fsub_nonneg [OF le fin] by blast
  have "fle (fmul (Fin q) (Fin d)) (fmul (Fin q') (Fin d))"
    using d(2) qq by (rule fmul_mono)
  then have "fle (fadd (Fin lo) (fmul (Fin q) (Fin d))) (fadd (Fin lo) (fmul (Fin q') (Fin d)))"
    by (rule fadd_mono)
  then show ?thesis
    by (simp only: pulse_width_def lo hi c c' q q' d)
qed

section \<open>Evaluating a rounding\<close>

lemma floorlog_2_eq:
  assumes "2 ^ (m + 23) \<le> n" "n < 2 ^ (m + 24)"
  shows "floorlog 2 n = m + 24"
proof -
  have "floorlog 2 n \<le> m + 24" using assms(2) by (simp add: floorlog_le_iff)
  moreover have "m + 24 \<le> floorlog 2 n" using assms(1) by (intro floorlog_geI) (simp_all add: add.commute)
  ultimately show ?thesis by simp
qed

lemma rnd_eval:
  assumes "0 \<le> x"
    and "2 ^ (m + 23) \<le> nat \<lfloor>x * 2 ^ 149\<rfloor>" "nat \<lfloor>x * 2 ^ 149\<rfloor> < 2 ^ (m + 24)"
    and "of_int (rne (x * 2 ^ 149 / 2 ^ m)) * 2 ^ m / 2 ^ 149 = r" "r < 2 ^ 128" "- (2 ^ 128) < r"
  shows "rnd x = Fin r"
proof -
  have "floorlog 2 (nat \<lfloor>x * 2 ^ 149\<rfloor>) - 24 = m"
    using floorlog_2_eq [OF assms(2,3)] by simp
  then have "round_pos x = r"
    using assms(4) by (simp add: round_pos_def round_units_def Let_def)
  then show ?thesis using assms(1,5,6) by (simp add: rnd_def round_signed_def Let_def not_le)
qed

lemma floor_rat_numeral_div:
  "\<lfloor>(numeral a :: rat) / numeral b\<rfloor> = numeral a div numeral b"
  by (metis floor_divide_of_int_eq of_int_numeral)

lemma rnd_7_10: "rnd (7 / 10) = Fin (11744051 / 16777216)"
  by (rule rnd_eval [where m = 125]) (simp_all add: rne_def Let_def floor_rat_numeral_div)

lemma rnd_1400: "rnd (11744051 / 16777216 * 2000) = Fin 1400"
  by (rule rnd_eval [where m = 136]) (simp_all add: rne_def Let_def floor_rat_numeral_div)

lemma rnd_1900: "rnd 1900 = Fin 1900"
  using rnd_int [of 1900] by simp

section \<open>The servo driver\<close>

lemma f2u_nat: "n < 2 ^ 32 \<Longrightarrow> f2u (Fin (of_nat n)) = Some (of_nat n)"
proof -
  assume "n < 2 ^ 32"
  then have "(of_nat n :: rat) < of_nat (2 ^ 32)" by (simp only: of_nat_less_iff)
  then show ?thesis by (simp add: f2u_def)
qed

lemma clamp_angle_Fin:
  "clamp_angle (Fin x) = Fin (if x < 0 then 0 else if 180 < x then 180 else x)"
  by (simp add: clamp_angle_def)

lemma pulse_width_servo:
  "pulse_width servo_config (Fin x) = fadd (Fin 500) (fmul (rnd (x / 180)) (Fin 2000))"
proof -
  have "rnd (2500 - 500) = Fin 2000" using rnd_int [of 2000] by simp
  then show ?thesis by (simp add: pulse_width_def servo_config_def fsub_Fin)
qed

lemma pulse_width_0: "pulse_width servo_config (Fin 0) = Fin 500"
  using rnd_int [of 0] rnd_int [of 500] by (simp add: pulse_width_servo)

lemma pulse_width_90: "pulse_width servo_config (Fin 90) = Fin 1500"
  using rnd_int [of 1000] rnd_int [of 1500] by (simp add: pulse_width_servo rnd_half)

lemma pulse_width_180: "pulse_width servo_config (Fin 180) = Fin 2500"
  using rnd_int [of 1] rnd_int [of 2000] rnd_int [of 2500] by (simp add: pulse_width_servo)

lemma f2u_500: "f2u (Fin 500) = Some 500"
  using f2u_nat [of 500] by simp

lemma f2u_1500: "f2u (Fin 1500) = Some 1500"
  using f2u_nat [of 1500] by simp

lemma f2u_2500: "f2u (Fin 2500) = Some 2500"
  using f2u_nat [of 2500] by simp

lemma sg90_set_angle_Returned:
  assumes "sg90_set_angle sdk config angle w = (Returned r, w')"
  shows "r = ESP_OK \<and> (\<exists>v. f2u (pulse_width config (clamp_angle angle)) = Some v
           \<and> sdk (comparator config) v = ESP_OK
           \<and> w' = emit (SetCompare v) (w\<lparr>compare_value := v\<rparr>))"
  using assms
  by (auto simp: sg90_set_angle_def mcpwm_comparator_set_compare_value_def
      split: option.splits if_splits)

lemma sg90_set_angle_ok:
  assumes "f2u (pulse_width config (clamp_angle angle)) = Some v"
    and "sdk (comparator config) v = ESP_OK"
  shows "sg90_set_angle sdk config angle w
           = (Returned ESP_OK, emit (SetCompare v) (w\<lparr>compare_value := v\<rparr>))"
  using assms by (simp add: sg90_set_angle_def mcpwm_comparator_set_compare_value_def)

section \<open>The command table\<close>

text \<open>
  C1. For every digit 0..9 the digit-to-angle lookup of the command handler returns the
  entries of the table 0, 18, 36, 54, 72, 90, 108, 126, 144, 180, in this order; the last
  entry is 180 and not 162, so the last step (36) differs from the others (18).
\<close>

theorem command_angle_table:
  "map angle_for_command ''0123456789'' = [0, 18, 36, 54, 72, 90, 108, 126, 144, 180]
   \<and> map (\<lambda>d. command_angle_map ! d) [0, 1, 2, 3, 4, 5, 6, 7, 8, 9]
       = [0, 18, 36, 54, 72, 90, 108, 126, 144, 180]
   \<and> length command_angle_map = 10
   \<and> angle_for_command CHR ''9'' = 180 \<and> angle_for_command CHR ''9'' \<noteq> 162
   \<and> angle_for_command CHR ''9'' - angle_for_command CHR ''8'' = 36
   \<and> angle_for_command CHR ''8'' - angle_for_command CHR ''7'' = 18"
  by (simp add: angle_for_command_def command_angle_map_def)

section \<open>The pulse width\<close>

text \<open>
  C4 (as amended). The pulse width that \<^verbatim>\<open>sg90_set_angle\<close> computes is
  \<open>min + (angle / 180) * (max - min)\<close> in \<^verbatim>\<open>float\<close> arithmetic, taken at the clamped
  angle, and its integral part is what the comparator receives. With 500 and 2500 it is
  500 at 0 degrees, 2500 at 180 degrees and 1500 at 90 degrees. It is monotonic in the
  angle when the two bounds are finite, \<open>min \<le> max\<close>, and \<open>max - min\<close> does not overflow.
\<close>

theorem pulse_width_linear:
  "(\<forall>sdk angle w r w'. sg90_set_angle sdk config angle w = (Returned r, w')
         \<longrightarrow> f2u (fadd (min_pulse_width_us config)
                   (fmul (fdiv180 (clamp_angle angle))
                      (fsub (max_pulse_width_us config) (min_pulse_width_us config))))
               = Some (compare_value w'))
   \<and> pulse_width servo_config (clamp_angle (Fin 0)) = Fin 500
   \<and> pulse_width servo_config (clamp_angle (Fin 180)) = Fin 2500
   \<and> pulse_width servo_config (clamp_angle (Fin 90)) = Fin 1500
   \<and> (\<forall>lo hi a b. min_pulse_width_us config = Fin lo \<and> max_pulse_width_us config = Fin hi
         \<and> lo \<le> hi \<and> fsub (Fin hi) (Fin lo) \<noteq> PInf \<and> fle a b
         \<longrightarrow> fle (pulse_width config (clamp_angle a)) (pulse_width config (clamp_angle b)))"
proof (intro conjI allI impI)
  fix sdk angle w r w'
  assume "sg90_set_angle sdk config angle w = (Returned r, w')"
  from sg90_set_angle_Returned [OF this]
  show "f2u (fadd (min_pulse_width_us config)
                   (fmul (fdiv180 (clamp_angle angle))
                      (fsub (max_pulse_width_us config) (min_pulse_width_us config))))
               = Some (compare_value w')"
    by (auto simp: emit_def pulse_width_def)
next
  show "pulse_width servo_config (clamp_angle (Fin 0)) = Fin 500"
    by (simp add: clamp_angle_Fin pulse_width_0)
next
  show "pulse_width servo_config (clamp_angle (Fin 180)) = Fin 2500"
    by (simp add: clamp_angle_Fin pulse_width_180)
next
  show "pulse_width servo_config (clamp_angle (Fin 90)) = Fin 1500"
    by (simp add: clamp_angle_Fin pulse_width_90)
next
  fix lo hi a b
  assume "min_pulse_width_us config = Fin lo \<and> max_pulse_width_us config = Fin hi
         \<and> lo \<le> hi \<and> fsub (Fin hi) (Fin lo) \<noteq> PInf \<and> fle a b"
  then show "fle (pulse_width config (clamp_angle a)) (pulse_width config (clamp_angle b))"
    by (intro pulse_width_mono [of config lo hi]) simp_all
qed

lemma rnd_2_128: "rnd (2 ^ 128) = PInf"
proof -
  have "round_pos (of_int 1 * 2 ^ 277 / 2 ^ 149) = of_int 1 * 2 ^ 277 / 2 ^ 149"
    by (rule round_pos_exact) simp_all
  then have "round_pos (2 ^ 128) = 2 ^ 128" by simp
  then show ?thesis by (simp add: rnd_def round_signed_def)
qed

theorem pulse_width_linear_witness:
  "min_pulse_width_us servo_config = Fin 500 \<and> max_pulse_width_us servo_config = Fin 2500
   \<and> (500 :: rat) \<le> 2500 \<and> fsub (Fin 2500) (Fin 500) \<noteq> PInf \<and> fle (Fin 0) (Fin 180)
   \<and> fle (pulse_width servo_config (clamp_angle (Fin 0)))
         (pulse_width servo_config (clamp_angle (Fin 180)))
   \<and> sg90_set_angle (\<lambda>h v. ESP_OK) servo_config (Fin 90) world0
        = (Returned ESP_OK, \<lparr>compare_value = 1500, trace = [SetCompare 1500]\<rparr>)
   \<and> f2u (fadd (min_pulse_width_us servo_config)
             (fmul (fdiv180 (clamp_angle (Fin 90)))
                (fsub (max_pulse_width_us servo_config) (min_pulse_width_us servo_config))))
       = Some 1500"
proof -
  have d: "fsub (Fin 2500) (Fin 500) = Fin 2000"
    using rnd_int [of 2000] by (simp add: fsub_Fin)
  have s: "sg90_set_angle (\<lambda>h v. ESP_OK) servo_config (Fin 90) world0
        = (Returned ESP_OK, \<lparr>compare_value = 1500, trace = [SetCompare 1500]\<rparr>)"
    by (simp add: sg90_set_angle_def mcpwm_comparator_set_compare_value_def clamp_angle_Fin
        pulse_width_90 f2u_1500 emit_def world0_def)
  have m: "min_pulse_width_us servo_config = Fin 500" "max_pulse_width_us servo_config = Fin 2500"
    by (simp_all add: servo_config_def)
  from pulse_width_linear [of servo_config]
  have mono: "min_pulse_width_us servo_config = Fin lo \<Longrightarrow> max_pulse_width_us servo_config = Fin hi
      \<Longrightarrow> lo \<le> hi \<Longrightarrow> fsub (Fin hi) (Fin lo) \<noteq> PInf \<Longrightarrow> fle a b
      \<Longrightarrow> fle (pulse_width servo_config (clamp_angle a)) (pulse_width servo_config (clamp_angle b))"
    for lo hi a b by blast
  have "fle (pulse_width servo_config (clamp_angle (Fin 0)))
         (pulse_width servo_config (clamp_angle (Fin 180)))"
    by (rule mono [of 500 2500]) (simp_all add: m d)
  moreover from pulse_width_linear [of servo_config]
  have "sg90_set_angle (\<lambda>h v. ESP_OK) servo_config (Fin 90) world0
        = (Returned ESP_OK, \<lparr>compare_value = 1500, trace = [SetCompare 1500]\<rparr>)
      \<Longrightarrow> f2u (fadd (min_pulse_width_us servo_config)
             (fmul (fdiv180 (clamp_angle (Fin 90)))
                (fsub (max_pulse_width_us servo_config) (min_pulse_width_us servo_config))))
       = Some (compare_value \<lparr>compare_value = 1500, trace = [SetCompare 1500]\<rparr>)"
    by blast
  ultimately show ?thesis using m d s by simp
qed

theorem pulse_width_overflow_counterexample:
  "fle (Fin (- (2 ^ 127))) (Fin (2 ^ 127)) \<and> fle (Fin 0) (Fin 180)
   \<and> pulse_width (servo_config\<lparr>min_pulse_width_us := Fin (- (2 ^ 127)),
                                max_pulse_width_us := Fin (2 ^ 127)\<rparr>) (clamp_angle (Fin 0)) = NaN
   \<and> pulse_width (servo_config\<lparr>min_pulse_width_us := Fin (- (2 ^ 127)),
                                max_pulse_width_us := Fin (2 ^ 127)\<rparr>) (clamp_angle (Fin 180)) = PInf
   \<and> \<not> fle (pulse_width (servo_config\<lparr>min_pulse_width_us := Fin (- (2 ^ 127)),
                                max_pulse_width_us := Fin (2 ^ 127)\<rparr>) (clamp_angle (Fin 0)))
            (pulse_width (servo_config\<lparr>min_pulse_width_us := Fin (- (2 ^ 127)),
                                max_pulse_width_us := Fin (2 ^ 127)\<rparr>) (clamp_angle (Fin 180)))"
proof -
  show ?thesis
    using rnd_int [of 0] rnd_int [of 1] rnd_2_128
    by (simp add: pulse_width_def clamp_angle_Fin fsub_Fin servo_config_def)
qed

section \<open>Clamping the angle\<close>

lemma fadd_NaN_right: "fadd a NaN = NaN"
  by (cases a) simp_all

lemma pulse_width_NaN: "pulse_width config NaN = NaN"
  by (simp add: pulse_width_def fadd_NaN_right)

text \<open>
  C3 (as amended). For every input angle that is not a NaN, below 0, above 180 and
  infinite ones included, \<^verbatim>\<open>sg90_set_angle\<close> brings the angle to the nearest bound of
  the range from 0 to 180 before it computes the pulse width: the compare value that the
  comparator receives is that of an angle within the range.
\<close>

theorem set_angle_clamps:
  assumes "angle \<noteq> NaN"
  shows "\<exists>c. clamp_angle angle = Fin c \<and> 0 \<le> c \<and> c \<le> 180
     \<and> (flt angle (Fin 0) \<longrightarrow> c = 0)
     \<and> (flt (Fin 180) angle \<longrightarrow> c = 180)
     \<and> (fle (Fin 0) angle \<and> fle angle (Fin 180) \<longrightarrow> angle = Fin c)
     \<and> (\<forall>sdk config w r w'. sg90_set_angle sdk config angle w = (Returned r, w')
           \<longrightarrow> f2u (pulse_width config (Fin c)) = Some (compare_value w'))"
proof -
  from assms obtain c where c: "clamp_angle angle = Fin c" "0 \<le> c" "c \<le> 180"
    using clamp_angle_range by blast
  have "flt angle (Fin 0) \<longrightarrow> c = 0" "flt (Fin 180) angle \<longrightarrow> c = 180"
    "fle (Fin 0) angle \<and> fle angle (Fin 180) \<longrightarrow> angle = Fin c"
    using c(1) by (cases angle; auto simp: clamp_angle_def split: if_splits)+
  moreover have "f2u (pulse_width config (Fin c)) = Some (compare_value w')"
    if "sg90_set_angle sdk config angle w = (Returned r, w')" for sdk config w r w'
    using sg90_set_angle_Returned [OF that] c(1) by (auto simp: emit_def)
  ultimately show ?thesis using c by blast
qed

theorem set_angle_clamps_witness:
  "Fin 200 \<noteq> NaN \<and> flt (Fin 180) (Fin 200) \<and> clamp_angle (Fin 200) = Fin 180
   \<and> sg90_set_angle (\<lambda>h v. ESP_OK) servo_config (Fin 200) world0
       = (Returned ESP_OK, \<lparr>compare_value = 2500, trace = [SetCompare 2500]\<rparr>)
   \<and> f2u (pulse_width servo_config (Fin 180)) = Some 2500"
proof -
  have n: "Fin 200 \<noteq> NaN" by simp
  have s: "sg90_set_angle (\<lambda>h v. ESP_OK) servo_config (Fin 200) world0
       = (Returned ESP_OK, \<lparr>compare_value = 2500, trace = [SetCompare 2500]\<rparr>)"
    by (simp add: sg90_set_angle_def mcpwm_comparator_set_compare_value_def clamp_angle_Fin
        pulse_width_180 f2u_2500 emit_def world0_def)
  from set_angle_clamps [OF n] obtain c where
    c: "clamp_angle (Fin 200) = Fin c" "flt (Fin 180) (Fin 200) \<longrightarrow> c = 180"
    and w: "\<And>sdk config w r w'. sg90_set_angle sdk config (Fin 200) w = (Returned r, w')
           \<Longrightarrow> f2u (pulse_width config (Fin c)) = Some (compare_value w')"
    by blast
  from c have "c = 180" by simp
  with c(1) w [OF s] s show ?thesis by simp
qed

theorem set_angle_NaN_counterexample:
  "clamp_angle NaN = NaN
   \<and> \<not> fle (Fin 0) (clamp_angle NaN) \<and> \<not> fle (clamp_angle NaN) (Fin 180)
   \<and> pulse_width servo_config (clamp_angle NaN) = NaN
   \<and> sg90_set_angle (\<lambda>h v. ESP_OK) servo_config NaN world0 = (Undefined, world0)"
  by (simp add: clamp_angle_def pulse_width_NaN sg90_set_angle_def f2u_def)

section \<open>Moving and returning home\<close>

lemma sg90_set_angle_with_reset_ok:
  assumes "f2u (pulse_width config (clamp_angle angle)) = Some v"
    and "f2u (pulse_width config (Fin 0)) = Some home"
    and "sdk (comparator config) v = ESP_OK" "sdk (comparator config) home = ESP_OK"
  shows "sg90_set_angle_with_reset sdk config angle ms w
     = (Returned ESP_OK, \<lparr>compare_value = home,
          trace = trace w @ [SetCompare v, TaskDelay ms, SetCompare home]\<rparr>)"
proof -
  have "f2u (pulse_width config (clamp_angle (Fin 0))) = Some home"
    using assms(2) by (simp add: clamp_angle_Fin)
  then show ?thesis
    using assms(1,3,4)
    by (simp add: sg90_set_angle_with_reset_def sg90_set_angle_ok vTaskDelay_ms_def emit_def)
qed

lemma sg90_set_angle_with_reset_Returned:
  assumes "sg90_set_angle_with_reset sdk config angle reset_delay_ms w = (Returned r, w')"
  shows "r = ESP_OK \<and> (\<exists>v home.
            f2u (pulse_width config (clamp_angle angle)) = Some v
          \<and> f2u (pulse_width config (Fin 0)) = Some home
          \<and> trace w' = trace w @ [SetCompare v, TaskDelay reset_delay_ms, SetCompare home]
          \<and> compare_value w' = home)"
proof -
  from assms obtain r1 w1 where 1: "sg90_set_angle sdk config angle w = (Returned r1, w1)"
    by (cases "sg90_set_angle sdk config angle w" rule: prod.exhaust [case_names Pair])
      (auto simp: sg90_set_angle_with_reset_def split: outcome.splits)
  from sg90_set_angle_Returned [OF 1] obtain v where v:
    "r1 = ESP_OK" "f2u (pulse_width config (clamp_angle angle)) = Some v"
    "w1 = emit (SetCompare v) (w\<lparr>compare_value := v\<rparr>)" by blast
  from assms 1 v(1) have 2:
    "sg90_set_angle sdk config (Fin 0) (vTaskDelay_ms reset_delay_ms w1) = (Returned r, w')"
    by (simp add: sg90_set_angle_with_reset_def)
  from sg90_set_angle_Returned [OF 2] obtain home where h:
    "r = ESP_OK" "f2u (pulse_width config (clamp_angle (Fin 0))) = Some home"
    "w' = emit (SetCompare home) ((vTaskDelay_ms reset_delay_ms w1)\<lparr>compare_value := home\<rparr>)"
    by blast
  from h(2) have "f2u (pulse_width config (Fin 0)) = Some home" by (simp add: clamp_angle_Fin)
  with v h show ?thesis by (simp add: emit_def vTaskDelay_ms_def)
qed



lemma sg90_set_angle_refused:
  assumes "f2u (pulse_width config (clamp_angle angle)) = Some v"
    and "sdk (comparator config) v \<noteq> ESP_OK"
  shows "sg90_set_angle sdk config angle w = (Aborted, w)"
  using assms by (simp add: sg90_set_angle_def mcpwm_comparator_set_compare_value_def)

lemma sg90_set_angle_undefined:
  assumes "f2u (pulse_width config (clamp_angle angle)) = None"
  shows "sg90_set_angle sdk config angle w = (Undefined, w)"
  using assms by (simp add: sg90_set_angle_def)

lemma sg90_set_angle_with_reset_no_early_return:
  "sg90_set_angle_with_reset sdk config angle ms w
       = (case sg90_set_angle sdk config angle w of
            (Returned ret, w1) \<Rightarrow> sg90_set_angle sdk config (Fin 0) (vTaskDelay_ms ms w1)
          | (Aborted, w1) \<Rightarrow> (Aborted, w1)
          | (Undefined, w1) \<Rightarrow> (Undefined, w1))"
proof (cases "sg90_set_angle sdk config angle w")
  case (Pair o1 w1)
  show ?thesis
  proof (cases o1)
    case (Returned ret)
    with Pair sg90_set_angle_Returned [of sdk config angle w ret w1] have "ret = ESP_OK" by simp
    with Pair Returned show ?thesis by (simp add: sg90_set_angle_with_reset_def)
  next
    case Aborted
    with Pair show ?thesis by (simp add: sg90_set_angle_with_reset_def)
  next
    case Undefined
    with Pair show ?thesis by (simp add: sg90_set_angle_with_reset_def)
  qed
qed

text \<open>
  C10 (as amended). Whenever \<^verbatim>\<open>sg90_set_angle\<close> returns, it returns \<^verbatim>\<open>ESP_OK\<close>, for
  every configuration and every angle, and it does return \<^verbatim>\<open>ESP_OK\<close> when the cast of the
  pulse width is defined and the SDK takes the write. It never returns an error code: a
  refused write aborts the process, and a pulse width that is a NaN or does not fit
  \<^verbatim>\<open>uint32_t\<close> makes the cast undefined. So the early return of
  \<^verbatim>\<open>sg90_set_angle_with_reset\<close> is never taken (the function is the same without it),
  and it too returns \<^verbatim>\<open>ESP_OK\<close> whenever it returns.
\<close>

theorem set_angle_returns_only_ESP_OK:
  "(\<forall>r w'. sg90_set_angle sdk config angle w = (Returned r, w') \<longrightarrow> r = ESP_OK)
   \<and> (\<forall>v. f2u (pulse_width config (clamp_angle angle)) = Some v
          \<and> sdk (comparator config) v = ESP_OK
        \<longrightarrow> sg90_set_angle sdk config angle w
             = (Returned ESP_OK, emit (SetCompare v) (w\<lparr>compare_value := v\<rparr>)))
   \<and> (\<forall>v. f2u (pulse_width config (clamp_angle angle)) = Some v
          \<and> sdk (comparator config) v \<noteq> ESP_OK
        \<longrightarrow> sg90_set_angle sdk config angle w = (Aborted, w))
   \<and> (f2u (pulse_width config (clamp_angle angle)) = None
        \<longrightarrow> sg90_set_angle sdk config angle w = (Undefined, w))
   \<and> sg90_set_angle_with_reset sdk config angle ms w
       = (case sg90_set_angle sdk config angle w of
            (Returned ret, w1) \<Rightarrow> sg90_set_angle sdk config (Fin 0) (vTaskDelay_ms ms w1)
          | (Aborted, w1) \<Rightarrow> (Aborted, w1)
          | (Undefined, w1) \<Rightarrow> (Undefined, w1))
   \<and> (\<forall>r w'. sg90_set_angle_with_reset sdk config angle ms w = (Returned r, w')
        \<longrightarrow> r = ESP_OK)
   \<and> (\<forall>v home. f2u (pulse_width config (clamp_angle angle)) = Some v
          \<and> f2u (pulse_width config (Fin 0)) = Some home
          \<and> sdk (comparator config) v = ESP_OK \<and> sdk (comparator config) home = ESP_OK
        \<longrightarrow> fst (sg90_set_angle_with_reset sdk config angle ms w) = Returned ESP_OK)"
proof (intro conjI allI impI)
  fix r w'
  assume "sg90_set_angle sdk config angle w = (Returned r, w')"
  from sg90_set_angle_Returned [OF this] show "r = ESP_OK" by simp
next
  fix v
  assume "f2u (pulse_width config (clamp_angle angle)) = Some v
          \<and> sdk (comparator config) v = ESP_OK"
  then show "sg90_set_angle sdk config angle w
             = (Returned ESP_OK, emit (SetCompare v) (w\<lparr>compare_value := v\<rparr>))"
    by (simp add: sg90_set_angle_ok)
next
  fix v
  assume "f2u (pulse_width config (clamp_angle angle)) = Some v
          \<and> sdk (comparator config) v \<noteq> ESP_OK"
  then show "sg90_set_angle sdk config angle w = (Aborted, w)"
    by (simp add: sg90_set_angle_refused)
next
  assume "f2u (pulse_width config (clamp_angle angle)) = None"
  then show "sg90_set_angle sdk config angle w = (Undefined, w)"
    by (rule sg90_set_angle_undefined)
next
  show "sg90_set_angle_with_reset sdk config angle ms w
       = (case sg90_set_angle sdk config angle w of
            (Returned ret, w1) \<Rightarrow> sg90_set_angle sdk config (Fin 0) (vTaskDelay_ms ms w1)
          | (Aborted, w1) \<Rightarrow> (Aborted, w1)
          | (Undefined, w1) \<Rightarrow> (Undefined, w1))"
    by (rule sg90_set_angle_with_reset_no_early_return)
next
  fix r w'
  assume "sg90_set_angle_with_reset sdk config angle ms w = (Returned r, w')"
  from sg90_set_angle_with_reset_Returned [OF this] show "r = ESP_OK" by simp
next
  fix v home
  assume "f2u (pulse_width config (clamp_angle angle)) = Some v
          \<and> f2u (pulse_width config (Fin 0)) = Some home
          \<and> sdk (comparator config) v = ESP_OK \<and> sdk (comparator config) home = ESP_OK"
  then show "fst (sg90_set_angle_with_reset sdk config angle ms w) = Returned ESP_OK"
    by (simp add: sg90_set_angle_with_reset_ok)
qed

theorem set_angle_returns_only_ESP_OK_witness:
  "f2u (pulse_width servo_config (clamp_angle (Fin 90))) = Some 1500
   \<and> f2u (pulse_width servo_config (Fin 0)) = Some 500
   \<and> sg90_set_angle (\<lambda>h v. ESP_OK) servo_config (Fin 90) world0
       = (Returned ESP_OK, \<lparr>compare_value = 1500, trace = [SetCompare 1500]\<rparr>)
   \<and> fst (sg90_set_angle_with_reset (\<lambda>h v. ESP_OK) servo_config (Fin 90) 1000 world0)
       = Returned ESP_OK
   \<and> sg90_set_angle (\<lambda>h v. ESP_FAIL) servo_config (Fin 90) world0 = (Aborted, world0)"
proof -
  have a: "f2u (pulse_width servo_config (clamp_angle (Fin 90))) = Some 1500"
    by (simp add: clamp_angle_Fin pulse_width_90 f2u_1500)
  have h: "f2u (pulse_width servo_config (Fin 0)) = Some 500"
    by (simp add: pulse_width_0 f2u_500)
  note t = set_angle_returns_only_ESP_OK [of "\<lambda>h v. ESP_OK" servo_config "Fin 90" world0 1000]
  note f = set_angle_returns_only_ESP_OK [of "\<lambda>h v. ESP_FAIL" servo_config "Fin 90" world0 1000]
  from t a have 1: "sg90_set_angle (\<lambda>h v. ESP_OK) servo_config (Fin 90) world0
       = (Returned ESP_OK, emit (SetCompare 1500) (world0\<lparr>compare_value := 1500\<rparr>))"
    by blast
  from t a h have 2:
    "fst (sg90_set_angle_with_reset (\<lambda>h v. ESP_OK) servo_config (Fin 90) 1000 world0)
       = Returned ESP_OK" by blast
  from f a have 3: "sg90_set_angle (\<lambda>h v. ESP_FAIL) servo_config (Fin 90) world0 = (Aborted, world0)"
    by (metis esp_err_t.distinct(1))
  from 1 2 3 a h show ?thesis by (simp add: emit_def world0_def)
qed

theorem set_angle_undefined_counterexample:
  "clamp_angle (Fin 0) = Fin 0
   \<and> pulse_width (servo_config\<lparr>min_pulse_width_us := Fin (- 1000),
         max_pulse_width_us := Fin (- 500)\<rparr>) (clamp_angle (Fin 0)) = Fin (- 1000)
   \<and> sg90_set_angle (\<lambda>h v. ESP_OK)
        (servo_config\<lparr>min_pulse_width_us := Fin (- 1000), max_pulse_width_us := Fin (- 500)\<rparr>)
        (Fin 0) world0 = (Undefined, world0)
   \<and> fst (sg90_set_angle (\<lambda>h v. ESP_OK)
        (servo_config\<lparr>min_pulse_width_us := Fin (- 1000), max_pulse_width_us := Fin (- 500)\<rparr>)
        (Fin 0) world0) \<noteq> Returned ESP_OK
   \<and> fst (sg90_set_angle (\<lambda>h v. ESP_OK)
        (servo_config\<lparr>min_pulse_width_us := Fin (- 1000), max_pulse_width_us := Fin (- 500)\<rparr>)
        (Fin 0) world0) \<noteq> Aborted
   \<and> fst (sg90_set_angle_with_reset (\<lambda>h v. ESP_OK)
        (servo_config\<lparr>min_pulse_width_us := Fin (- 1000), max_pulse_width_us := Fin (- 500)\<rparr>)
        (Fin 0) 1000 world0) = Undefined"
proof -
  have p: "pulse_width (servo_config\<lparr>min_pulse_width_us := Fin (- 1000),
         max_pulse_width_us := Fin (- 500)\<rparr>) (Fin 0) = Fin (- 1000)"
    using rnd_int [of 0] rnd_int [of 500] rnd_int [of "- 1000"]
    by (simp add: pulse_width_def servo_config_def fsub_Fin)
  have u: "f2u (Fin (- 1000)) = None" by (simp add: f2u_def)
  show ?thesis
    by (simp add: clamp_angle_Fin p u sg90_set_angle_def sg90_set_angle_with_reset_def)
qed

section \<open>The command handler\<close>

lemma digit_iff:
  "(48 \<le> (of_char c :: nat) \<and> (of_char c :: nat) \<le> 57) \<longleftrightarrow> c \<in> set ''0123456789''"
proof
  assume a: "48 \<le> (of_char c :: nat) \<and> (of_char c :: nat) \<le> 57"
  define n where "n = (of_char c :: nat)"
  from a have "n = 48 \<or> n = 49 \<or> n = 50 \<or> n = 51 \<or> n = 52 \<or> n = 53 \<or> n = 54 \<or> n = 55
      \<or> n = 56 \<or> n = 57"
    unfolding n_def [symmetric] by arith
  then have "n \<in> (of_char :: char \<Rightarrow> nat) ` set ''0123456789''" by auto
  then show "c \<in> set ''0123456789''"
    unfolding n_def by (simp only: inj_image_mem_iff [OF inj_of_char])
next
  assume "c \<in> set ''0123456789''"
  then show "48 \<le> (of_char c :: nat) \<and> (of_char c :: nat) \<le> 57" by auto
qed

lemma angle_for_command_table:
  "map angle_for_command ''0123456789'' = [0, 18, 36, 54, 72, 90, 108, 126, 144, 180]"
  by (simp add: angle_for_command_def command_angle_map_def)

lemma decimal_table:
  "map decimal [0, 18, 36, 54, 72, 90, 108, 126, 144, 180]
     = [''0'', ''18'', ''36'', ''54'', ''72'', ''90'', ''108'', ''126'', ''144'', ''180'']"
  by (simp add: decimal.simps)

lemma length_decimal_angle:
  assumes "c \<in> set ''0123456789''"
  shows "length (decimal (unat (angle_for_command c))) \<le> 3"
  using assms angle_for_command_table decimal_table by auto

lemma snprintf_ok_response:
  assumes "c \<in> set ''0123456789''"
  shows "snprintf_64 (''OK: Command '' @ [c] @ '' -> Angle ''
       @ decimal (unat (angle_for_command c)) @ degree_sign @ '' (auto reset in 1s)'' @ [CHR 0x0A])
     = ok_response c"
  using length_decimal_angle [OF assms]
  by (simp add: snprintf_64_def ok_response_def degree_sign_def)

lemma snprintf_error_response:
  "snprintf_64 (''ERROR: Servo not initialized'' @ [CHR 0x0A]) = error_response"
  by (simp add: snprintf_64_def error_response_def)

lemma command_handler_digit:
  assumes "c \<in> set ''0123456789''"
  shows "command_handler sdk (Some config) c fd w =
     (case sg90_set_angle_with_reset sdk config (u8_to_float (angle_for_command c)) 1000 w of
        (Returned ret, w1) \<Rightarrow> (Returned (), tcp_server_send_response fd (ok_response c) w1)
      | (Aborted, w1) \<Rightarrow> (Aborted, w1)
      | (Undefined, w1) \<Rightarrow> (Undefined, w1))"
proof -
  from assms have "\<not> ((of_char c :: nat) < 48 \<or> 57 < (of_char c :: nat))"
    using digit_iff [of c] by auto
  then show ?thesis
    unfolding command_handler_def Let_def snprintf_ok_response [OF assms] by simp
qed







text \<open>
  C8. While the global servo configuration is unset, a digit command writes the line
  \<open>ERROR: Servo not initialized\<close> to the connection and does nothing else: no compare value
  is written and the duty of the Pulse Generator stays as it was.
\<close>

theorem command_handler_not_initialized:
  assumes "c \<in> set ''0123456789''" "0 \<le> client_fd"
  shows "command_handler sdk None c client_fd w
     = (Returned (), w\<lparr>trace := trace w
          @ [Sent client_fd (''ERROR: Servo not initialized'' @ [CHR 0x0A])]\<rparr>)
   \<and> compare_value (snd (command_handler sdk None c client_fd w)) = compare_value w
   \<and> [e \<leftarrow> trace (snd (command_handler sdk None c client_fd w)). \<exists>v. e = SetCompare v]
       = [e \<leftarrow> trace w. \<exists>v. e = SetCompare v]"
proof -
  from assms(1) have "\<not> ((of_char c :: nat) < 48 \<or> 57 < (of_char c :: nat))"
    using digit_iff [of c] by auto
  then have "command_handler sdk None c client_fd w
     = (Returned (), w\<lparr>trace := trace w
          @ [Sent client_fd (''ERROR: Servo not initialized'' @ [CHR 0x0A])]\<rparr>)"
    using assms(2)
    by (simp add: command_handler_def Let_def snprintf_64_def tcp_server_send_response_def
        emit_def)
  then show ?thesis by simp
qed

theorem command_handler_not_initialized_witness:
  "CHR ''7'' \<in> set ''0123456789'' \<and> (0::int) \<le> 3
   \<and> command_handler (\<lambda>h v. ESP_OK) None CHR ''7'' 3 world0
     = (Returned (), \<lparr>compare_value = 0,
          trace = [Sent 3 (''ERROR: Servo not initialized'' @ [CHR 0x0A])]\<rparr>)"
  using command_handler_not_initialized [of "CHR ''7''" 3 "\<lambda>h v. ESP_OK" world0]
  by (simp add: world0_def)

section \<open>The bytes of one buffer\<close>





lemma pulse_width_126: "pulse_width servo_config (Fin 126) = Fin 1900"
  using rnd_7_10 rnd_1400 rnd_int [of 1900] by (simp add: pulse_width_servo)

lemma f2u_1900: "f2u (Fin 1900) = Some 1900"
  using f2u_nat [of 1900] by simp






section \<open>One connection at a time\<close>














lemma phase_run_rejects_second_accept:
  "phase_run Between [Accepted 3, RecvCalled 3, SetCompare 1500, TaskDelay 1000, Accepted 4] = None
   \<and> phase_run Between [Accepted 3, RecvCalled 3, RecvCalled 3] = None
   \<and> phase_run Between [TaskDelay 1000] = None"
  by simp






section \<open>Initialising the listener\<close>

lemma tcp_server_init_cases:
  "tcp_server_init os port0 st w =
     (if socket_ret os < 0 then
        (ESP_FAIL, st\<lparr>port := (if port0 = 0 then 8080 else port0), server_fd := socket_ret os\<rparr>, w)
      else if bind_ret os < 0 then
        (ESP_FAIL, st\<lparr>port := (if port0 = 0 then 8080 else port0), server_fd := - 1\<rparr>,
         w\<lparr>trace := trace w @ [SocketOpened (socket_ret os), Closed (socket_ret os)]\<rparr>)
      else if listen_ret os < 0 then
        (ESP_FAIL, st\<lparr>port := (if port0 = 0 then 8080 else port0), server_fd := - 1\<rparr>,
         w\<lparr>trace := trace w @ [SocketOpened (socket_ret os),
            Bound (socket_ret os) (if port0 = 0 then 8080 else port0), Closed (socket_ret os)]\<rparr>)
      else
        (ESP_OK, st\<lparr>port := (if port0 = 0 then 8080 else port0), server_fd := socket_ret os\<rparr>,
         w\<lparr>trace := trace w @ [SocketOpened (socket_ret os),
            Bound (socket_ret os) (if port0 = 0 then 8080 else port0),
            Listening (socket_ret os)]\<rparr>))"
  by (simp add: tcp_server_init_def Let_def emit_def)

text \<open>
  C9. When \<^verbatim>\<open>socket\<close>, \<^verbatim>\<open>bind\<close> or \<^verbatim>\<open>listen\<close> fails, \<^verbatim>\<open>tcp_server_init\<close> returns
  \<^verbatim>\<open>ESP_FAIL\<close> (and \<^verbatim>\<open>ESP_OK\<close> only when none fails). After a failure the stored descriptor
  is negative and no socket listens: a socket that was created has been closed, as the last
  thing done, and the stored descriptor is -1. \<^verbatim>\<open>tcp_server_start\<close> then refuses with
  \<^verbatim>\<open>ESP_ERR_INVALID_STATE\<close> and creates no server task.
\<close>

theorem tcp_server_init_failure:
  assumes "socket_ret os < 0 \<or> bind_ret os < 0 \<or> listen_ret os < 0"
    and "tcp_server_init os port0 st w = (r, st', w')"
  shows "r = ESP_FAIL \<and> r \<noteq> ESP_OK \<and> server_fd st' < 0
     \<and> (socket_ret os < 0 \<longrightarrow> w' = w)
     \<and> (0 \<le> socket_ret os \<longrightarrow> server_fd st' = - 1
           \<and> (\<exists>es. trace w' = trace w @ SocketOpened (socket_ret os) # es @ [Closed (socket_ret os)]
                 \<and> Listening (socket_ret os) \<notin> set es))
     \<and> tcp_server_start task_created st' w' = (ESP_ERR_INVALID_STATE, w')"
proof (cases "socket_ret os < 0")
  case True
  with assms(2) show ?thesis
    by (auto simp: tcp_server_init_cases tcp_server_start_def)
next
  case s: False
  show ?thesis
  proof (cases "bind_ret os < 0")
    case True
    with s assms(2) show ?thesis
      by (auto simp: tcp_server_init_cases tcp_server_start_def)
  next
    case False
    with s assms have "listen_ret os < 0" by simp
    with s False assms(2) show ?thesis
      by (auto simp: tcp_server_init_cases tcp_server_start_def)
  qed
qed

theorem tcp_server_init_failure_witness:
  "(socket_ret \<lparr>socket_ret = 3, setsockopt_ret = 0, bind_ret = - 1, listen_ret = 0\<rparr> < 0
     \<or> bind_ret \<lparr>socket_ret = 3, setsockopt_ret = 0, bind_ret = - 1, listen_ret = 0\<rparr> < 0
     \<or> listen_ret \<lparr>socket_ret = 3, setsockopt_ret = 0, bind_ret = - 1, listen_ret = 0\<rparr> < 0)
   \<and> tcp_server_init \<lparr>socket_ret = 3, setsockopt_ret = 0, bind_ret = - 1, listen_ret = 0\<rparr>
        8080 server_state world0
      = (ESP_FAIL, \<lparr>server_fd = - 1, port = 8080, running = False, callback = None\<rparr>,
         \<lparr>compare_value = 0, trace = [SocketOpened 3, Closed 3]\<rparr>)
   \<and> tcp_server_start True \<lparr>server_fd = - 1, port = 8080, running = False, callback = None\<rparr>
        \<lparr>compare_value = 0, trace = [SocketOpened 3, Closed 3]\<rparr>
      = (ESP_ERR_INVALID_STATE, \<lparr>compare_value = 0, trace = [SocketOpened 3, Closed 3]\<rparr>)"
proof -
  have f: "socket_ret \<lparr>socket_ret = 3, setsockopt_ret = 0, bind_ret = - 1, listen_ret = 0\<rparr> < 0
     \<or> bind_ret \<lparr>socket_ret = 3, setsockopt_ret = 0, bind_ret = - 1, listen_ret = 0\<rparr> < 0
     \<or> listen_ret \<lparr>socket_ret = 3, setsockopt_ret = 0, bind_ret = - 1, listen_ret = 0\<rparr> < 0"
    by simp
  have i: "tcp_server_init \<lparr>socket_ret = 3, setsockopt_ret = 0, bind_ret = - 1, listen_ret = 0\<rparr>
        8080 server_state world0
      = (ESP_FAIL, \<lparr>server_fd = - 1, port = 8080, running = False, callback = None\<rparr>,
         \<lparr>compare_value = 0, trace = [SocketOpened 3, Closed 3]\<rparr>)"
    by (simp add: tcp_server_init_cases server_state_def world0_def)
  from tcp_server_init_failure [OF f i, of True] show ?thesis using f i by simp
qed

section \<open>The ten commands on the declared configuration\<close>

text \<open>
  With pulse widths from 500 to 2500 microseconds, the ten digits give these compare
  values, the rounding of every \<^verbatim>\<open>float\<close> operation included; and every angle that is
  not a NaN gives a compare value between 500 and 2500, so that a move with return home
  completes whenever the SDK takes compare values up to the period of 20000.
\<close>

lemma pulse_width_18: "pulse_width servo_config (Fin 18) = Fin 700"
proof -
  have q: "rnd (1 / 10) = Fin (13421773 / 134217728)"
    by (rule rnd_eval [where m = 122]) (simp_all add: rne_def Let_def floor_rat_numeral_div)
  have p: "rnd (13421773 / 134217728 * 2000) = Fin 200"
    by (rule rnd_eval [where m = 133]) (simp_all add: rne_def Let_def floor_rat_numeral_div)
  show ?thesis
    using q p rnd_int [of 700] by (simp add: pulse_width_servo)
qed

lemma pulse_width_36: "pulse_width servo_config (Fin 36) = Fin 900"
proof -
  have q: "rnd (1 / 5) = Fin (13421773 / 67108864)"
    by (rule rnd_eval [where m = 123]) (simp_all add: rne_def Let_def floor_rat_numeral_div)
  have p: "rnd (13421773 / 67108864 * 2000) = Fin 400"
    by (rule rnd_eval [where m = 134]) (simp_all add: rne_def Let_def floor_rat_numeral_div)
  show ?thesis
    using q p rnd_int [of 900] by (simp add: pulse_width_servo)
qed

lemma pulse_width_54: "pulse_width servo_config (Fin 54) = Fin 1100"
proof -
  have q: "rnd (3 / 10) = Fin (5033165 / 16777216)"
    by (rule rnd_eval [where m = 124]) (simp_all add: rne_def Let_def floor_rat_numeral_div)
  have p: "rnd (5033165 / 16777216 * 2000) = Fin 600"
    by (rule rnd_eval [where m = 135]) (simp_all add: rne_def Let_def floor_rat_numeral_div)
  show ?thesis
    using q p rnd_int [of 1100] by (simp add: pulse_width_servo)
qed

lemma pulse_width_72: "pulse_width servo_config (Fin 72) = Fin 1300"
proof -
  have q: "rnd (2 / 5) = Fin (13421773 / 33554432)"
    by (rule rnd_eval [where m = 124]) (simp_all add: rne_def Let_def floor_rat_numeral_div)
  have p: "rnd (13421773 / 33554432 * 2000) = Fin 800"
    by (rule rnd_eval [where m = 135]) (simp_all add: rne_def Let_def floor_rat_numeral_div)
  show ?thesis
    using q p rnd_int [of 1300] by (simp add: pulse_width_servo)
qed

lemma pulse_width_108: "pulse_width servo_config (Fin 108) = Fin 1700"
proof -
  have q: "rnd (3 / 5) = Fin (5033165 / 8388608)"
    by (rule rnd_eval [where m = 125]) (simp_all add: rne_def Let_def floor_rat_numeral_div)
  have p: "rnd (5033165 / 8388608 * 2000) = Fin 1200"
    by (rule rnd_eval [where m = 136]) (simp_all add: rne_def Let_def floor_rat_numeral_div)
  show ?thesis
    using q p rnd_int [of 1700] by (simp add: pulse_width_servo)
qed

lemma pulse_width_144: "pulse_width servo_config (Fin 144) = Fin 2100"
proof -
  have q: "rnd (4 / 5) = Fin (13421773 / 16777216)"
    by (rule rnd_eval [where m = 125]) (simp_all add: rne_def Let_def floor_rat_numeral_div)
  have p: "rnd (13421773 / 16777216 * 2000) = Fin 1600"
    by (rule rnd_eval [where m = 136]) (simp_all add: rne_def Let_def floor_rat_numeral_div)
  show ?thesis
    using q p rnd_int [of 2100] by (simp add: pulse_width_servo)
qed

lemma duty_Some:
  "f2u (pulse_width config (clamp_angle angle)) = Some v \<Longrightarrow> duty config angle = v"
  by (simp add: duty_def)

lemma duty_table:
  "map (\<lambda>c. duty servo_config (u8_to_float (angle_for_command c))) ''0123456789''
     = [500, 700, 900, 1100, 1300, 1500, 1700, 1900, 2100, 2500]"
proof -
  have "f2u (Fin 700) = Some 700" "f2u (Fin 900) = Some 900" "f2u (Fin 1100) = Some 1100"
    "f2u (Fin 1300) = Some 1300" "f2u (Fin 1700) = Some 1700" "f2u (Fin 2100) = Some 2100"
    using f2u_nat [of 700] f2u_nat [of 900] f2u_nat [of 1100] f2u_nat [of 1300]
      f2u_nat [of 1700] f2u_nat [of 2100] by simp_all
  then show ?thesis
    using angle_for_command_table
    by (simp add: duty_def u8_to_float_def clamp_angle_Fin pulse_width_0 pulse_width_18
        pulse_width_36 pulse_width_54 pulse_width_72 pulse_width_90 pulse_width_108
        pulse_width_126 pulse_width_144 pulse_width_180 f2u_500 f2u_1500 f2u_1900 f2u_2500)
qed

lemma pulse_width_servo_bounds:
  assumes "angle \<noteq> NaN"
  shows "\<exists>x. pulse_width servo_config (clamp_angle angle) = Fin x \<and> 500 \<le> x \<and> x \<le> 2500"
proof -
  from assms obtain c where c: "clamp_angle angle = Fin c" "0 \<le> c" "c \<le> 180"
    using clamp_angle_range by blast
  have m: "min_pulse_width_us servo_config = Fin 500" "max_pulse_width_us servo_config = Fin 2500"
    by (simp_all add: servo_config_def)
  have d: "fsub (Fin 2500) (Fin 500) \<noteq> PInf"
    using rnd_int [of 2000] by (simp add: fsub_Fin)
  have "fle (pulse_width servo_config (clamp_angle (Fin 0)))
          (pulse_width servo_config (clamp_angle (Fin c)))"
    using c(2) by (intro pulse_width_mono [OF m _ d]) simp_all
  moreover have "fle (pulse_width servo_config (clamp_angle (Fin c)))
          (pulse_width servo_config (clamp_angle (Fin 180)))"
    using c(3) by (intro pulse_width_mono [OF m _ d]) simp_all
  ultimately have "fle (Fin 500) (pulse_width servo_config (Fin c))"
    "fle (pulse_width servo_config (Fin c)) (Fin 2500)"
    using c(2,3) by (simp_all add: clamp_angle_Fin pulse_width_0 pulse_width_180)
  then show ?thesis unfolding c(1) by (rule fle_Fin_between)
qed

lemma f2u_between:
  assumes "500 \<le> x" "x \<le> 2500"
  shows "\<exists>v. f2u (Fin x) = Some v \<and> 500 \<le> v \<and> v \<le> 2500"
proof -
  have f: "500 \<le> \<lfloor>x\<rfloor>" "\<lfloor>x\<rfloor> \<le> 2500"
    using assms by (simp_all add: le_floor_iff floor_le_iff)
  define n where "n = nat \<lfloor>x\<rfloor>"
  have n: "500 \<le> n" "n \<le> 2500" "\<lfloor>x\<rfloor> = int n" using f unfolding n_def by linarith+
  have "f2u (Fin x) = Some (of_nat n)"
    using assms n(3) by (simp add: f2u_def)
  moreover have "(500 :: 32 word) \<le> of_nat n \<and> (of_nat n :: 32 word) \<le> 2500"
    using n(1,2) by (simp add: word_le_nat_alt unsigned_of_nat take_bit_nat_eq_self)
  ultimately show ?thesis by blast
qed

lemma servo_config_moves_and_homes:
  assumes "angle \<noteq> NaN"
    and "\<And>v. v \<le> 20000 \<Longrightarrow> sdk (comparator servo_config) v = ESP_OK"
  shows "\<exists>v. 500 \<le> v \<and> v \<le> 2500
     \<and> sg90_set_angle_with_reset sdk servo_config angle ms w
         = (Returned ESP_OK, \<lparr>compare_value = 500,
              trace = trace w @ [SetCompare v, TaskDelay ms, SetCompare 500]\<rparr>)"
proof -
  from pulse_width_servo_bounds [OF assms(1)] f2u_between obtain v where
    v: "f2u (pulse_width servo_config (clamp_angle angle)) = Some v" "500 \<le> v" "v \<le> 2500"
    by metis
  from v(3) have "v \<le> 20000" by (rule order_trans) simp
  then have "sdk (comparator servo_config) v = ESP_OK" by (rule assms(2))
  moreover have "sdk (comparator servo_config) 500 = ESP_OK" by (rule assms(2)) simp
  ultimately have "sg90_set_angle_with_reset sdk servo_config angle ms w
         = (Returned ESP_OK, \<lparr>compare_value = 500,
              trace = trace w @ [SetCompare v, TaskDelay ms, SetCompare 500]\<rparr>)"
    using v(1) by (intro sg90_set_angle_with_reset_ok) (simp_all add: pulse_width_0 f2u_500)
  with v(2,3) show ?thesis by blast
qed

lemma command_handler_completes:
  assumes "c \<in> set ''0123456789''"
    and "\<And>v. v \<le> 20000 \<Longrightarrow> sdk (comparator servo_config) v = ESP_OK"
  shows "\<exists>v. 500 \<le> v \<and> v \<le> 2500
     \<and> command_handler sdk (Some servo_config) c fd w
       = (Returned (), tcp_server_send_response fd (ok_response c)
            \<lparr>compare_value = 500,
              trace = trace w @ [SetCompare v, TaskDelay 1000, SetCompare 500]\<rparr>)"
proof -
  have "u8_to_float (angle_for_command c) \<noteq> NaN" by (simp add: u8_to_float_def)
  then have "\<exists>v. 500 \<le> v \<and> v \<le> 2500
     \<and> sg90_set_angle_with_reset sdk servo_config (u8_to_float (angle_for_command c)) 1000 w
         = (Returned ESP_OK, \<lparr>compare_value = 500,
              trace = trace w @ [SetCompare v, TaskDelay 1000, SetCompare 500]\<rparr>)"
    using assms(2) by (rule servo_config_moves_and_homes)
  then show ?thesis by (auto simp: command_handler_digit [OF assms(1)])
qed

section \<open>The byte loop with any callback\<close>

text \<open>
  Whatever callback is registered, carriage returns and line feeds make no difference to
  the loop, and a buffer without a digit never reaches the callback: it leaves only the
  warnings.
\<close>

lemma line_end_not_digit:
  "b = CHR 0x0A \<or> b = CHR 0x0D \<Longrightarrow> \<not> ((48::nat) \<le> of_char b \<and> (of_char b :: nat) \<le> 57)"
  by auto

lemma process_buffer_line_ends:
  "process_buffer cb fd buf w
     = process_buffer cb fd [b \<leftarrow> buf. b \<noteq> CHR 0x0A \<and> b \<noteq> CHR 0x0D] w"
proof (induction buf arbitrary: w)
  case Nil
  then show ?case by simp
next
  case (Cons b rest)
  show ?case
  proof (cases "b = CHR 0x0A \<or> b = CHR 0x0D")
    case True
    with line_end_not_digit [OF True] Cons.IH [of w] show ?thesis by auto
  next
    case False
    with Cons.IH show ?thesis
      by (auto split: option.splits prod.splits outcome.splits)
  qed
qed

lemma process_buffer_no_digit:
  assumes "set buf \<inter> set ''0123456789'' = {}"
  shows "process_buffer cb fd buf w
     = (Returned (), w\<lparr>trace := trace w
          @ map Warned [b \<leftarrow> buf. b \<noteq> CHR 0x0A \<and> b \<noteq> CHR 0x0D]\<rparr>)"
  using assms
proof (induction buf arbitrary: w)
  case Nil
  then show ?case by simp
next
  case (Cons b rest)
  from Cons.prems have nd: "b \<notin> set ''0123456789''" and r: "set rest \<inter> set ''0123456789'' = {}"
    by auto
  from nd have d: "\<not> ((48::nat) \<le> of_char b \<and> (of_char b :: nat) \<le> 57)"
    by (simp only: digit_iff not_False_eq_True)
  show ?case
    using d Cons.IH [OF r, of w] Cons.IH [OF r, of "emit (Warned b) w"]
    by (auto simp: emit_def)
qed

end
